theory Spec2Isabelle
  imports Main "HOL-Library.Sublist" "HOL-Library.Multiset"
begin

section \<open>Python values of the alert system\<close>

text \<open>
  The module \<open>alert_system.py\<close> is embedded function by function. A Python \<open>str\<close> is a
  \<open>string\<close> holding its code points; the model covers text whose code points are below
  256, where \<open>str.lower\<close> is the map \<open>lower_char\<close>.

  A cell of a DataFrame row is a string, the float \<open>nan\<close> that pandas puts where a CSV
  field is empty, or \<open>None\<close>.
\<close>

datatype py_error = TypeError | AttributeError

datatype cell = Str string | NaN | NoneV

text \<open>\<open>str(x)\<close>, which is also what an f-string writes for \<open>{x}\<close>.\<close>

fun py_str :: "cell \<Rightarrow> string" where
  "py_str (Str s) = s"
| "py_str NaN = ''nan''"
| "py_str NoneV = ''None''"

text \<open>Truth value of a cell: \<open>nan\<close> is a non-zero float, so it is true.\<close>

fun truthy :: "cell \<Rightarrow> bool" where
  "truthy (Str s) = (s \<noteq> [])"
| "truthy NaN = True"
| "truthy NoneV = False"

definition lower_char :: "char \<Rightarrow> char" where
  "lower_char c =
     (let n = of_char c :: nat
      in if (65 \<le> n \<and> n \<le> 90) \<or> (192 \<le> n \<and> n \<le> 222 \<and> n \<noteq> 215)
         then char_of (n + 32) else c)"

definition lower :: "string \<Rightarrow> string" where
  "lower s = map lower_char s"

text \<open>\<open>kw in text\<close> on two strings: \<open>kw\<close> occurs in \<open>text\<close> as a contiguous block.\<close>

fun contains :: "string \<Rightarrow> string \<Rightarrow> bool" where
  "contains kw [] = (kw = [])"
| "contains kw (c # cs) = (prefix kw (c # cs) \<or> contains kw cs)"

text \<open>\<open>sep.join(xs)\<close>.\<close>

fun join :: "string \<Rightarrow> string list \<Rightarrow> string" where
  "join sep [] = []"
| "join sep [x] = x"
| "join sep (x # y # ys) = x @ sep @ join sep (y # ys)"

section \<open>The classifier \<open>is_critical_news\<close>\<close>

definition severity_high_keywords :: "string list" where
  "severity_high_keywords =
     [''critical'', ''urgent'', ''emergency'', ''severe'', ''zero-day'', ''zero day'',
      ''ransomware'', ''remote code execution'', ''data breach'', ''national security'']"

definition severity_medium_keywords :: "string list" where
  "severity_medium_keywords =
     [''vulnerability'', ''exploit'', ''breach'', ''attack'', ''compromise'', ''warning'',
      ''malware'', ''backdoor'', ''data leak'', ''hack'', ''phishing campaign'']"

definition severity_low_keywords :: "string list" where
  "severity_low_keywords =
     [''alert'', ''security update'', ''patch'', ''advisory'', ''update available'',
      ''security issue'', ''cybersecurity'', ''threat'']"

definition priority_sources :: "string list" where
  "priority_sources = [''CERT-In'', ''NCIIPC'', ''I4C'', ''NASSCOM'']"

definition medium_priority_sources :: "string list" where
  "medium_priority_sources =
     [''The Economic Times'', ''The Hindu'', ''Times of India'', ''India Today'']"

text \<open>
  \<open>(headline + " " + content).lower()\<close>: \<open>+\<close> between a string and a float or \<open>None\<close>
  raises \<open>TypeError\<close>, whichever side the string is on.
\<close>

definition combined_text :: "cell \<Rightarrow> cell \<Rightarrow> py_error + string" where
  "combined_text headline content =
     (case headline of
        Str h \<Rightarrow> (case content of
                    Str c \<Rightarrow> Inr (lower (h @ '' '' @ c))
                  | _ \<Rightarrow> Inl TypeError)
      | _ \<Rightarrow> Inl TypeError)"

text \<open>\<open>[keyword for keyword in kws if keyword.lower() in text]\<close>.\<close>

definition matches :: "string list \<Rightarrow> string \<Rightarrow> string list" where
  "matches kws text = filter (\<lambda>keyword. contains (lower keyword) text) kws"

text \<open>\<open>source in names\<close> for a list of string constants: only an equal string is a member.\<close>

definition source_in :: "cell \<Rightarrow> string list \<Rightarrow> bool" where
  "source_in source names = (case source of Str s \<Rightarrow> s \<in> set names | _ \<Rightarrow> False)"

text \<open>
  The rule cascade, on the three match lists. \<open>xs ! 0\<close> is read only under the guard
  \<open>length xs \<ge> 1\<close>, as in the source.
\<close>

definition verdict :: "cell \<Rightarrow> string list \<Rightarrow> string list \<Rightarrow> string list \<Rightarrow> bool \<times> string" where
  "verdict source high_matches medium_matches low_matches =
     (let all_matches = high_matches @ medium_matches @ low_matches
      in if source_in source priority_sources \<and> length high_matches \<ge> 1 then
           (True, ''High-priority source ('' @ py_str source @ '') with critical keyword: ''
                    @ high_matches ! 0)
         else if source_in source priority_sources \<and> length medium_matches \<ge> 2 then
           (True, ''High-priority source ('' @ py_str source
                    @ '') with multiple medium-severity keywords: ''
                    @ join '', '' (take 2 medium_matches))
         else if source_in source medium_priority_sources \<and> length high_matches \<ge> 1 then
           (True, ''Medium-priority source ('' @ py_str source
                    @ '') with high-severity keyword: '' @ high_matches ! 0)
         else if length high_matches \<ge> 1 \<and> length medium_matches \<ge> 1 then
           (True, ''High and medium severity keywords: '' @ high_matches ! 0 @ '', ''
                    @ medium_matches ! 0)
         else if length all_matches \<ge> 3 then
           (True, ''Multiple security keywords: '' @ join '', '' (take 3 all_matches))
         else (False, ''''))"

definition is_critical_news :: "cell \<Rightarrow> cell \<Rightarrow> cell \<Rightarrow> py_error + (bool \<times> string)" where
  "is_critical_news headline content source =
     (case combined_text headline content of
        Inl e \<Rightarrow> Inl e
      | Inr text \<Rightarrow>
          Inr (verdict source (matches severity_high_keywords text)
                 (matches severity_medium_keywords text)
                 (matches severity_low_keywords text)))"

section \<open>Rows and their identity key\<close>

record row =
  source :: cell
  headline :: cell
  content :: cell
  date :: cell
  url :: cell

text \<open>\<open>f"{row['source']}:{row['headline']}"\<close>.\<close>

definition news_id :: "row \<Rightarrow> string" where
  "news_id r = py_str (source r) @ '':'' @ py_str (headline r)"

section \<open>The alert history file\<close>

text \<open>
  What \<open>json.load\<close> returns: any JSON document (numbers are taken to be integers). An
  object is an association list in key order, read by its first entry for a key.
\<close>

datatype json =
  JNull | JBool bool | JNum int | JStr string | JArr "json list" | JObj "(string \<times> json) list"

text \<open>
  The state of \<open>alert_history.json\<close>: no such file; a file that \<open>open\<close> or the read
  refuses; a file whose text \<open>json.load\<close> rejects; or a file holding a JSON document.
\<close>

datatype file_state = NoFile | Unreadable | BadJSON | Doc json

definition empty_history :: json where
  "empty_history = JObj [(''alerts_sent'', JArr []), (''last_check'', JNull)]"

text \<open>Every exception inside \<open>load_alert_history\<close> is caught and gives the empty history.\<close>

fun load_alert_history :: "file_state \<Rightarrow> json" where
  "load_alert_history NoFile = empty_history"
| "load_alert_history Unreadable = empty_history"
| "load_alert_history BadJSON = empty_history"
| "load_alert_history (Doc j) = j"

text \<open>
  How the write of \<open>save_alert_history\<close> ends: the document is written; \<open>open\<close> raises and
  the file stays as it was; or \<open>open\<close> has emptied the file and \<open>json.dump\<close> raises, leaving
  an incomplete text. Both exceptions are caught and logged.
\<close>

datatype write_outcome = Written | OpenFailed | DumpFailed

fun save_alert_history :: "write_outcome \<Rightarrow> file_state \<Rightarrow> json \<Rightarrow> file_state" where
  "save_alert_history Written f history = Doc history"
| "save_alert_history OpenFailed f history = f"
| "save_alert_history DumpFailed f history = BadJSON"

text \<open>Truth value of a JSON value, as \<open>if history.get('last_check')\<close> tests it.\<close>

fun json_truthy :: "json \<Rightarrow> bool" where
  "json_truthy JNull = False"
| "json_truthy (JBool b) = b"
| "json_truthy (JNum n) = (n \<noteq> 0)"
| "json_truthy (JStr s) = (s \<noteq> [])"
| "json_truthy (JArr xs) = (xs \<noteq> [])"
| "json_truthy (JObj kvs) = (kvs \<noteq> [])"

text \<open>\<open>d[k] = v\<close> on a dict: an existing key keeps its place, a new key goes last.\<close>

fun setitem :: "(string \<times> json) list \<Rightarrow> string \<Rightarrow> json \<Rightarrow> (string \<times> json) list" where
  "setitem [] k v = [(k, v)]"
| "setitem ((k', v') # kvs) k v =
     (if k' = k then (k, v) # kvs else (k', v') # setitem kvs k v)"

text \<open>
  \<open>news_id in already_alerted_ids\<close>, whatever the history file gave for \<open>alerts_sent\<close>:
  membership in a list, substring of a string, key of a dict; \<open>TypeError\<close> on \<open>None\<close>,
  a bool or a number.
\<close>

fun py_in :: "string \<Rightarrow> json \<Rightarrow> py_error + bool" where
  "py_in s (JArr xs) = Inr (JStr s \<in> set xs)"
| "py_in s (JStr t) = Inr (contains s t)"
| "py_in s (JObj kvs) = Inr (s \<in> fst ` set kvs)"
| "py_in s JNull = Inl TypeError"
| "py_in s (JBool b) = Inl TypeError"
| "py_in s (JNum n) = Inl TypeError"

text \<open>\<open>already_alerted_ids.append(news_id)\<close>: only a list has \<open>append\<close>.\<close>

fun py_append :: "json \<Rightarrow> string \<Rightarrow> py_error + json" where
  "py_append (JArr xs) s = Inr (JArr (xs @ [JStr s]))"
| "py_append _ s = Inl AttributeError"

section \<open>The environment of one run\<close>

text \<open>
  What a run of the module reads from outside: the three Twilio environment variables,
  whether the \<open>k\<close>-th call of the Twilio client in this run (to a number, with a body)
  returns rather than raises, the clock with \<open>datetime\<close>'s ISO conversions (times in
  seconds), and how the write of the history file ends.
\<close>

record env =
  TWILIO_ACCOUNT_SID :: "string option"
  TWILIO_AUTH_TOKEN :: "string option"
  TWILIO_PHONE_NUMBER :: "string option"
  twilio_create :: "nat \<Rightarrow> string \<Rightarrow> string \<Rightarrow> bool"
  now :: int
  isoformat :: "int \<Rightarrow> string"
  fromisoformat :: "string \<Rightarrow> int option"
  write_result :: write_outcome

definition var_set :: "string option \<Rightarrow> bool" where
  "var_set v = (case v of None \<Rightarrow> False | Some s \<Rightarrow> s \<noteq> [])"

text \<open>
  \<open>send_sms_alert\<close>; \<open>k\<close> counts the calls made before this one in the run. Without all three
  credentials the client is not called.
\<close>

definition send_sms_alert :: "env \<Rightarrow> nat \<Rightarrow> string \<Rightarrow> string \<Rightarrow> bool" where
  "send_sms_alert e k to_phone_number message =
     (if \<not> (var_set (TWILIO_ACCOUNT_SID e) \<and> var_set (TWILIO_AUTH_TOKEN e)
             \<and> var_set (TWILIO_PHONE_NUMBER e))
      then False
      else twilio_create e k to_phone_number message)"

definition format_alert_message :: "row \<Rightarrow> string" where
  "format_alert_message news_item =
     (let message = ''SECURITY ALERT: '' @ py_str (source news_item) @ [CHR 0x0A, CHR 0x0A]
                    @ py_str (headline news_item) @ [CHR 0x0A, CHR 0x0A] @ ''Date: ''
                    @ py_str (date news_item)
      in if truthy (url news_item)
         then message @ [CHR 0x0A, CHR 0x0A] @ ''More info: '' @ py_str (url news_item)
         else message)"

section \<open>The dispatcher \<open>check_for_alerts\<close>\<close>

text \<open>
  The local \<open>last_check\<close>: the stored value parsed by \<open>datetime.fromisoformat\<close>, which
  raises \<open>TypeError\<close> on a value that is no string and \<open>ValueError\<close> on a string it cannot
  parse; both are caught and give one day before now, as an absent or false value does.
\<close>

definition parse_last_check :: "env \<Rightarrow> (string \<times> json) list \<Rightarrow> int" where
  "parse_last_check e kvs =
     (case map_of kvs ''last_check'' of
        None \<Rightarrow> now e - 86400
      | Some v \<Rightarrow>
          if json_truthy v then
            (case v of
               JStr s \<Rightarrow> (case fromisoformat e s of Some t \<Rightarrow> t | None \<Rightarrow> now e - 86400)
             | _ \<Rightarrow> now e - 86400)
          else now e - 86400)"

text \<open>
  The variables of the loop, and \<open>sms_log\<close>: the calls of \<open>send_sms_alert\<close> made so far,
  each with the row it was made for and what it returned.
\<close>

record scan =
  critical_items :: "row list"
  alerts_sent :: nat
  already_alerted_ids :: json
  sms_log :: "(row \<times> bool) list"

text \<open>
  One pass of the loop body. An exception leaves the function; it is returned with the
  calls of \<open>send_sms_alert\<close> made before it.
\<close>

definition alert_row ::
  "env \<Rightarrow> string \<Rightarrow> scan \<Rightarrow> row \<Rightarrow> (py_error \<times> (row \<times> bool) list) + scan" where
  "alert_row e phone_number st r =
     (case py_in (news_id r) (already_alerted_ids st) of
        Inl err \<Rightarrow> Inl (err, sms_log st)
      | Inr True \<Rightarrow> Inr st
      | Inr False \<Rightarrow>
          (case is_critical_news (headline r) (content r) (source r) of
             Inl err \<Rightarrow> Inl (err, sms_log st)
           | Inr (is_critical, reason) \<Rightarrow>
               if is_critical then
                 (let st1 = st\<lparr>critical_items := critical_items st @ [r]\<rparr>
                  in if phone_number \<noteq> [] then
                       (let success = send_sms_alert e (length (sms_log st)) phone_number
                                        (format_alert_message r);
                            st2 = st1\<lparr>sms_log := sms_log st @ [(r, success)]\<rparr>
                        in if success then
                             (case py_append (already_alerted_ids st) (news_id r) of
                                Inl err \<Rightarrow> Inl (err, sms_log st2)
                              | Inr ids \<Rightarrow>
                                  Inr (st2\<lparr>alerts_sent := alerts_sent st + 1,
                                           already_alerted_ids := ids\<rparr>))
                           else Inr st2)
                     else Inr st1)
               else Inr st))"

fun scan_rows ::
  "env \<Rightarrow> string \<Rightarrow> scan \<Rightarrow> row list \<Rightarrow> (py_error \<times> (row \<times> bool) list) + scan" where
  "scan_rows e phone_number st [] = Inr st"
| "scan_rows e phone_number st (r # rs) =
     (case alert_row e phone_number st r of
        Inl err \<Rightarrow> Inl err
      | Inr st' \<Rightarrow> scan_rows e phone_number st' rs)"

text \<open>What a run that returns leaves behind.\<close>

record outcome =
  items :: "row list"
  any_sent :: bool
  file_after :: file_state
  calls :: "(row \<times> bool) list"

text \<open>
  \<open>check_for_alerts\<close>, from the file as the run finds it. \<open>history.get\<close> raises
  \<open>AttributeError\<close> when the loaded document is not an object. An exception leaves the
  file as it was: the save is the last statement before the return.
\<close>

definition check_for_alerts ::
  "env \<Rightarrow> file_state \<Rightarrow> row list \<Rightarrow> string option
     \<Rightarrow> (py_error \<times> (row \<times> bool) list) + outcome" where
  "check_for_alerts e file news_df phone_number =
     (case phone_number of
        None \<Rightarrow> Inr \<lparr>items = [], any_sent = False, file_after = file, calls = []\<rparr>
      | Some phone \<Rightarrow>
          (case load_alert_history file of
             JObj history \<Rightarrow>
               (let ids = (case map_of history ''alerts_sent'' of
                             Some v \<Rightarrow> v | None \<Rightarrow> JArr []);
                    last_check = parse_last_check e history;
                    history1 = setitem history ''last_check'' (JStr (isoformat e (now e)))
                in case scan_rows e phone
                          \<lparr>critical_items = [], alerts_sent = 0, already_alerted_ids = ids,
                           sms_log = []\<rparr> news_df of
                     Inl err \<Rightarrow> Inl err
                   | Inr st \<Rightarrow>
                       (let history2 = setitem history1 ''alerts_sent'' (already_alerted_ids st)
                        in Inr \<lparr>items = critical_items st, any_sent = (alerts_sent st > 0),
                                file_after = save_alert_history (write_result e) file (JObj history2),
                                calls = sms_log st\<rparr>))
           | _ \<Rightarrow> Inl (AttributeError, [])))"

section \<open>The digest \<open>get_critical_news_digest\<close>\<close>

text \<open>
  The dict \<open>priority_sources\<close> of the digest function (the classifier has a list of that
  name).
\<close>

definition source_scores :: "(string \<times> int) list" where
  "source_scores =
     [(''CERT-In'', 10), (''NCIIPC'', 9), (''I4C'', 8), (''NASSCOM'', 7),
      (''The Economic Times'', 5), (''The Hindu'', 5), (''Times of India'', 5),
      (''India Today'', 5)]"

definition severity_scores :: "(string \<times> int) list" where
  "severity_scores =
     [(''critical'', 10), (''urgent'', 10), (''emergency'', 10), (''severe'', 9),
      (''zero-day'', 9), (''zero day'', 9), (''ransomware'', 8),
      (''remote code execution'', 8), (''data breach'', 8), (''national security'', 8),
      (''vulnerability'', 7), (''exploit'', 7), (''breach'', 6), (''attack'', 6),
      (''compromise'', 6), (''warning'', 5), (''malware'', 5), (''backdoor'', 5),
      (''data leak'', 5), (''hack'', 5), (''phishing campaign'', 5), (''alert'', 4),
      (''security update'', 3), (''patch'', 3), (''advisory'', 3), (''update available'', 2),
      (''security issue'', 2), (''cybersecurity'', 1), (''threat'', 1)]"

text \<open>\<open>x.lower() if isinstance(x, str) else ""\<close>.\<close>

definition lower_or_empty :: "cell \<Rightarrow> string" where
  "lower_or_empty x = (case x of Str s \<Rightarrow> lower s | _ \<Rightarrow> [])"

text \<open>\<open>priority_sources.get(source, 0)\<close>: \<open>nan\<close> and \<open>None\<close> are keys of no entry.\<close>

definition source_score :: "cell \<Rightarrow> int" where
  "source_score src =
     (case src of
        Str s \<Rightarrow> (case map_of source_scores s of Some p \<Rightarrow> p | None \<Rightarrow> 0)
      | _ \<Rightarrow> 0)"

text \<open>The score of one row: the source's points, then the loop over \<open>severity_scores\<close>.\<close>

definition criticality_score :: "row \<Rightarrow> int" where
  "criticality_score r =
     (let combined = lower_or_empty (headline r) @ '' '' @ lower_or_empty (content r)
      in fold (\<lambda>(keyword, keyword_score) score.
                 if contains (lower keyword) combined then score + keyword_score else score)
           severity_scores (0 + source_score (source r)))"

text \<open>\<open>xs[:n]\<close>: a negative \<open>n\<close> counts from the end.\<close>

definition slice_to :: "'a list \<Rightarrow> int \<Rightarrow> 'a list" where
  "slice_to xs n = (if 0 \<le> n then take (nat n) xs else take (nat (int (length xs) + n)) xs)"

text \<open>
  The rows that reach the threshold, each with its score. \<open>list.sort\<close> with
  \<open>reverse=True\<close> is a stable sort by descending key; \<open>sort_key\<close> on the negated score is
  one.
\<close>

definition scored_items :: "row list \<Rightarrow> (row \<times> int) list" where
  "scored_items news_df =
     filter (\<lambda>(r, score). score \<ge> 10) (map (\<lambda>r. (r, criticality_score r)) news_df)"

definition get_critical_news_digest :: "row list \<Rightarrow> int \<Rightarrow> (row \<times> int) list" where
  "get_critical_news_digest news_df max_items =
     slice_to (sort_key (\<lambda>(r, score). - score) (scored_items news_df)) max_items"

section \<open>Notions used to state the properties of the dispatcher\<close>

text \<open>The classifier calls the row critical (and does not raise).\<close>

definition critical :: "row \<Rightarrow> bool" where
  "critical r =
     (case is_critical_news (headline r) (content r) (source r) of
        Inl err \<Rightarrow> False
      | Inr (is_critical, reason) \<Rightarrow> is_critical)"

text \<open>The test \<open>news_id in already_alerted_ids\<close> of the loop succeeds with \<open>True\<close>.\<close>

definition alerted :: "string \<Rightarrow> json \<Rightarrow> bool" where
  "alerted k ids = (py_in k ids = Inr True)"

text \<open>
  What a run takes as \<open>already_alerted_ids\<close> from a file: \<open>history.get('alerts_sent', [])\<close>
  of the loaded history, when that is an object.
\<close>

definition loaded_ids :: "file_state \<Rightarrow> json option" where
  "loaded_ids file =
     (case load_alert_history file of
        JObj history \<Rightarrow>
          Some (case map_of history ''alerts_sent'' of Some v \<Rightarrow> v | None \<Rightarrow> JArr [])
      | _ \<Rightarrow> None)"

text \<open>The calls of \<open>send_sms_alert\<close> a run made, whether it returned or raised.\<close>

definition calls_of :: "(py_error \<times> (row \<times> bool) list) + outcome \<Rightarrow> (row \<times> bool) list" where
  "calls_of res = (case res of Inl (err, log) \<Rightarrow> log | Inr out \<Rightarrow> calls out)"

text \<open>What the caller and the next run can see of a run.\<close>

definition observed ::
  "(py_error \<times> (row \<times> bool) list) + outcome
     \<Rightarrow> (py_error \<times> (row \<times> bool) list) + (row list \<times> bool \<times> (row \<times> bool) list \<times> json option)" where
  "observed res =
     (case res of
        Inl err \<Rightarrow> Inl err
      | Inr out \<Rightarrow> Inr (items out, any_sent out, calls out, loaded_ids (file_after out)))"

section \<open>Example data\<close>

text \<open>
  An environment in which every credential is set, Twilio accepts every message and the
  history file is written; and rows to run the functions on.
\<close>

definition demo_env :: env where
  "demo_env =
     \<lparr>TWILIO_ACCOUNT_SID = Some ''AC0001'', TWILIO_AUTH_TOKEN = Some ''token'',
      TWILIO_PHONE_NUMBER = Some ''+15550111'',
      twilio_create = (\<lambda>k to_number body. True),
      now = 1700000000,
      isoformat = (\<lambda>t. if t = 1700000000 then ''2023-11-14T22:13:20'' else ''1970-01-01T00:00:00''),
      fromisoformat = (\<lambda>s. if s = ''2023-11-14T22:13:20'' then Some 1700000000 else None),
      write_result = Written\<rparr>"

definition row_flaw :: row where
  "row_flaw =
     \<lparr>source = Str ''CERT-In'', headline = Str ''Critical flaw'', content = Str [],
      date = Str ''2024-05-01'', url = NoneV\<rparr>"

definition row_weather :: row where
  "row_weather =
     \<lparr>source = Str ''The Hindu'', headline = Str ''Rain expected'', content = Str [],
      date = Str ''2024-05-01'', url = NoneV\<rparr>"


definition digest_a :: row where
  "digest_a =
     \<lparr>source = Str ''CERT-In'', headline = Str ''Warning issued'', content = NaN,
      date = Str ''2024-05-01'', url = NaN\<rparr>"

definition digest_b :: row where
  "digest_b =
     \<lparr>source = Str ''CERT-In'', headline = Str ''Critical urgent fix'', content = Str [],
      date = Str ''2024-05-01'', url = NaN\<rparr>"

definition digest_c :: row where
  "digest_c =
     \<lparr>source = Str ''The Hindu'', headline = Str ''Emergency declared'', content = Str [],
      date = Str ''2024-05-01'', url = NaN\<rparr>"


definition unsaved_env :: env where
  "unsaved_env = demo_env\<lparr>write_result := OpenFailed\<rparr>"

text \<open>What the first example run returns.\<close>

definition out_flaw :: outcome where
  "out_flaw =
     \<lparr>items = [row_flaw], any_sent = True,
      file_after = Doc (JObj [(''alerts_sent'', JArr [JStr ''CERT-In:Critical flaw'']),
                              (''last_check'', JStr ''2023-11-14T22:13:20'')]),
      calls = [(row_flaw, True)]\<rparr>"


section \<open>Properties of the classifier\<close>

lemma contains_sublist: "contains kw t = sublist kw t"
  by (induction t) (simp_all add: sublist_Cons_right)

lemma lower_data_breach: "lower ''data breach'' = ''data breach''"
  by (simp add: lower_def lower_char_def)

lemma lower_breach: "lower ''breach'' = ''breach''"
  by (simp add: lower_def lower_char_def)

lemma contains_breach: "contains ''data breach'' t \<Longrightarrow> contains ''breach'' t"
proof -
  assume a: "contains ''data breach'' t"
  have "sublist ''breach'' ''data breach''"
    using sublist_appendI[of "''breach''" "''data ''" "[]"] by simp
  then show ?thesis using a unfolding contains_sublist
    by (rule sublist_order.order_trans)
qed

text \<open>
  C3. The classifier does not treat a missing or non-string headline or content as the
  empty string: \<open>headline + " " + content\<close> raises \<open>TypeError\<close> as soon as one of the two is
  \<open>nan\<close> or \<open>None\<close>, whatever the other arguments are. A row whose headline alone makes it
  critical when the content is the empty string gives no verdict when the content is
  \<open>nan\<close>.
\<close>

theorem is_critical_news_non_string:
  "is_critical_news hl NaN src = Inl TypeError
   \<and> is_critical_news hl NoneV src = Inl TypeError
   \<and> is_critical_news NaN ct src = Inl TypeError
   \<and> is_critical_news NoneV ct src = Inl TypeError
   \<and> is_critical_news (Str ''Ransomware hits bank'') NaN (Str ''CERT-In'') = Inl TypeError
   \<and> is_critical_news (Str ''Ransomware hits bank'') (Str []) (Str ''CERT-In'')
       = Inr (True, ''High-priority source (CERT-In) with critical keyword: ransomware'')"
proof -
  have "is_critical_news (Str ''Ransomware hits bank'') (Str []) (Str ''CERT-In'')
       = Inr (True, ''High-priority source (CERT-In) with critical keyword: ransomware'')"
    by code_simp
  then show ?thesis
    by (simp add: is_critical_news_def combined_text_def split: cell.splits)
qed

text \<open>
  C10. Whenever the lowercased \<open>headline + " " + content\<close> contains "data breach", the
  HIGH keyword "data breach" and the MEDIUM keyword "breach" both match, and the
  classifier returns critical for every source; for a source in neither source list the
  verdict comes from the rule for one HIGH and one MEDIUM match.
\<close>

theorem data_breach_is_critical:
  assumes "contains ''data breach'' (lower (h @ '' '' @ c))"
  shows "''data breach'' \<in> set (matches severity_high_keywords (lower (h @ '' '' @ c)))
     \<and> ''breach'' \<in> set (matches severity_medium_keywords (lower (h @ '' '' @ c)))
     \<and> (\<exists>reason. is_critical_news (Str h) (Str c) src = Inr (True, reason))
     \<and> (\<not> source_in src priority_sources \<and> \<not> source_in src medium_priority_sources \<longrightarrow>
          is_critical_news (Str h) (Str c) src
            = Inr (True, ''High and medium severity keywords: ''
                     @ matches severity_high_keywords (lower (h @ '' '' @ c)) ! 0 @ '', ''
                     @ matches severity_medium_keywords (lower (h @ '' '' @ c)) ! 0))"
proof -
  let ?t = "lower (h @ '' '' @ c)"
  have hi: "''data breach'' \<in> set (matches severity_high_keywords ?t)"
    using assms by (simp add: matches_def severity_high_keywords_def lower_data_breach)
  have me: "''breach'' \<in> set (matches severity_medium_keywords ?t)"
    using contains_breach[OF assms]
    by (simp add: matches_def severity_medium_keywords_def lower_breach)
  from hi have h1: "length (matches severity_high_keywords ?t) \<ge> 1"
    by (cases "matches severity_high_keywords ?t") auto
  from me have m1: "length (matches severity_medium_keywords ?t) \<ge> 1"
    by (cases "matches severity_medium_keywords ?t") auto
  have ct: "combined_text (Str h) (Str c) = Inr ?t"
    by (simp add: combined_text_def)
  have ex: "\<exists>reason. is_critical_news (Str h) (Str c) src = Inr (True, reason)"
    using h1 m1 by (simp add: is_critical_news_def ct verdict_def Let_def)
  have d: "\<not> source_in src priority_sources \<and> \<not> source_in src medium_priority_sources \<longrightarrow>
          is_critical_news (Str h) (Str c) src
            = Inr (True, ''High and medium severity keywords: ''
                     @ matches severity_high_keywords ?t ! 0 @ '', ''
                     @ matches severity_medium_keywords ?t ! 0)"
    using h1 m1 by (simp add: is_critical_news_def ct verdict_def Let_def)
  show ?thesis using hi me ex d by blast
qed

theorem data_breach_is_critical_witness:
  "contains ''data breach'' (lower (''Data Breach at bank'' @ '' '' @ []))
   \<and> is_critical_news (Str ''Data Breach at bank'') (Str []) (Str ''Some Blog'')
       = Inr (True, ''High and medium severity keywords: data breach, breach'')"
proof -
  have h: "contains ''data breach'' (lower (''Data Breach at bank'' @ '' '' @ []))"
    by code_simp
  have s: "\<not> source_in (Str ''Some Blog'') priority_sources
           \<and> \<not> source_in (Str ''Some Blog'') medium_priority_sources"
    by code_simp
  have m: "matches severity_high_keywords (lower (''Data Breach at bank'' @ '' '' @ [])) ! 0
           = ''data breach''"
    by code_simp
  have m2: "matches severity_medium_keywords (lower (''Data Breach at bank'' @ '' '' @ [])) ! 0
            = ''breach''"
    by code_simp
  show ?thesis
    using data_breach_is_critical[OF h, of "Str ''Some Blog''"] h s m m2 by simp
qed

lemma keywords_distinct:
  "distinct (severity_high_keywords @ severity_medium_keywords @ severity_low_keywords)"
  by (simp add: severity_high_keywords_def severity_medium_keywords_def severity_low_keywords_def)

lemma matches_distinct:
  "distinct (matches severity_high_keywords t @ matches severity_medium_keywords t
             @ matches severity_low_keywords t)"
  using keywords_distinct unfolding matches_def
  by (metis distinct_filter filter_append)

lemma matches_card:
  "card (set (matches severity_high_keywords t) \<union> set (matches severity_medium_keywords t)
         \<union> set (matches severity_low_keywords t))
   = length (matches severity_high_keywords t @ matches severity_medium_keywords t
             @ matches severity_low_keywords t)"
  using distinct_card[OF matches_distinct[of t]] by (simp add: Un_assoc)

text \<open>
  C4. With H, M, L the HIGH, MEDIUM and LOW keywords matched in the lowercased
  \<open>headline + " " + content\<close>, the classifier applies, in this order and taking the first
  that holds: (a) priority source and at least one HIGH match; (b) priority source and at
  least two MEDIUM matches; (c) medium-priority source and at least one HIGH match; (d) at
  least one HIGH and one MEDIUM match; (e) at least three matched keywords in all;
  (f) otherwise not critical with empty reason. Each rule gives its own reason string.
  So a row from a priority source with exactly one HIGH match and no other match is
  critical by rule (a), and the same text from a source in neither list is not critical.
\<close>

theorem is_critical_news_precedence:
  "let t = lower (h @ '' '' @ c);
       H = matches severity_high_keywords t;
       M = matches severity_medium_keywords t;
       L = matches severity_low_keywords t;
       a = (source_in src priority_sources \<and> length H \<ge> 1);
       b = (source_in src priority_sources \<and> length M \<ge> 2);
       c' = (source_in src medium_priority_sources \<and> length H \<ge> 1);
       d = (length H \<ge> 1 \<and> length M \<ge> 1);
       e = (card (set H \<union> set M \<union> set L) \<ge> 3);
       res = is_critical_news (Str h) (Str c) src
   in (a \<longrightarrow> res = Inr (True, ''High-priority source ('' @ py_str src
                            @ '') with critical keyword: '' @ H ! 0))
    \<and> (\<not> a \<and> b \<longrightarrow> res = Inr (True, ''High-priority source ('' @ py_str src
                            @ '') with multiple medium-severity keywords: ''
                            @ join '', '' (take 2 M)))
    \<and> (\<not> a \<and> \<not> b \<and> c' \<longrightarrow> res = Inr (True, ''Medium-priority source ('' @ py_str src
                            @ '') with high-severity keyword: '' @ H ! 0))
    \<and> (\<not> a \<and> \<not> b \<and> \<not> c' \<and> d \<longrightarrow>
          res = Inr (True, ''High and medium severity keywords: '' @ H ! 0 @ '', '' @ M ! 0))
    \<and> (\<not> a \<and> \<not> b \<and> \<not> c' \<and> \<not> d \<and> e \<longrightarrow>
          res = Inr (True, ''Multiple security keywords: '' @ join '', '' (take 3 (H @ M @ L))))
    \<and> (\<not> a \<and> \<not> b \<and> \<not> c' \<and> \<not> d \<and> \<not> e \<longrightarrow> res = Inr (False, []))
    \<and> (source_in src priority_sources \<and> length H = 1 \<and> M = [] \<and> L = [] \<longrightarrow>
          res = Inr (True, ''High-priority source ('' @ py_str src
                            @ '') with critical keyword: '' @ H ! 0))
    \<and> (\<not> source_in src priority_sources \<and> \<not> source_in src medium_priority_sources
          \<and> length H = 1 \<and> M = [] \<and> L = [] \<longrightarrow> res = Inr (False, []))"
proof -
  have res: "is_critical_news (Str h) (Str c) src
      = Inr (verdict src (matches severity_high_keywords (lower (h @ '' '' @ c)))
               (matches severity_medium_keywords (lower (h @ '' '' @ c)))
               (matches severity_low_keywords (lower (h @ '' '' @ c))))"
    by (simp add: is_critical_news_def combined_text_def)
  show ?thesis
    unfolding Let_def matches_card res
    by (auto simp add: verdict_def Let_def)
qed

theorem is_critical_news_precedence_witness:
  "is_critical_news (Str ''Critical flaw'') (Str []) (Str ''CERT-In'')
       = Inr (True, ''High-priority source (CERT-In) with critical keyword: critical'')
   \<and> is_critical_news (Str ''Malware attack'') (Str []) (Str ''CERT-In'')
       = Inr (True, ''High-priority source (CERT-In) with multiple medium-severity keywords: attack, malware'')
   \<and> is_critical_news (Str ''Ransomware wave'') (Str []) (Str ''The Hindu'')
       = Inr (True, ''Medium-priority source (The Hindu) with high-severity keyword: ransomware'')
   \<and> is_critical_news (Str ''Data Breach at bank'') (Str []) (Str ''Some Blog'')
       = Inr (True, ''High and medium severity keywords: data breach, breach'')
   \<and> is_critical_news (Str ''Patch advisory alert'') (Str []) (Str ''Some Blog'')
       = Inr (True, ''Multiple security keywords: alert, patch, advisory'')
   \<and> is_critical_news (Str ''Critical flaw'') (Str []) (Str ''Some Blog'')
       = Inr (False, [])"
proof -
  have Ha: "matches severity_high_keywords (lower (''Critical flaw'' @ '' '' @ [])) = [''critical'']" by code_simp
  have Ma: "matches severity_medium_keywords (lower (''Critical flaw'' @ '' '' @ [])) = []" by code_simp
  have La: "matches severity_low_keywords (lower (''Critical flaw'' @ '' '' @ [])) = []" by code_simp
  have Pa: "source_in (Str ''CERT-In'') priority_sources = True" by code_simp
  have Qa: "source_in (Str ''CERT-In'') medium_priority_sources = False" by code_simp
  have ra: "is_critical_news (Str ''Critical flaw'') (Str []) (Str ''CERT-In'')
       = Inr (True, ''High-priority source (CERT-In) with critical keyword: critical'')"
    using is_critical_news_precedence[of "''Critical flaw''" "[]" "Str ''CERT-In''", unfolded Let_def Ha Ma La Pa Qa]
    by simp
  have Hb: "matches severity_high_keywords (lower (''Malware attack'' @ '' '' @ [])) = []" by code_simp
  have Mb: "matches severity_medium_keywords (lower (''Malware attack'' @ '' '' @ [])) = [''attack'', ''malware'']" by code_simp
  have Lb: "matches severity_low_keywords (lower (''Malware attack'' @ '' '' @ [])) = []" by code_simp
  have Pb: "source_in (Str ''CERT-In'') priority_sources = True" by code_simp
  have Qb: "source_in (Str ''CERT-In'') medium_priority_sources = False" by code_simp
  have rb: "is_critical_news (Str ''Malware attack'') (Str []) (Str ''CERT-In'')
       = Inr (True, ''High-priority source (CERT-In) with multiple medium-severity keywords: attack, malware'')"
    using is_critical_news_precedence[of "''Malware attack''" "[]" "Str ''CERT-In''", unfolded Let_def Hb Mb Lb Pb Qb]
    by simp
  have Hc: "matches severity_high_keywords (lower (''Ransomware wave'' @ '' '' @ [])) = [''ransomware'']" by code_simp
  have Mc: "matches severity_medium_keywords (lower (''Ransomware wave'' @ '' '' @ [])) = []" by code_simp
  have Lc: "matches severity_low_keywords (lower (''Ransomware wave'' @ '' '' @ [])) = []" by code_simp
  have Pc: "source_in (Str ''The Hindu'') priority_sources = False" by code_simp
  have Qc: "source_in (Str ''The Hindu'') medium_priority_sources = True" by code_simp
  have rc: "is_critical_news (Str ''Ransomware wave'') (Str []) (Str ''The Hindu'')
       = Inr (True, ''Medium-priority source (The Hindu) with high-severity keyword: ransomware'')"
    using is_critical_news_precedence[of "''Ransomware wave''" "[]" "Str ''The Hindu''", unfolded Let_def Hc Mc Lc Pc Qc]
    by simp
  have Hd: "matches severity_high_keywords (lower (''Data Breach at bank'' @ '' '' @ [])) = [''data breach'']" by code_simp
  have Md: "matches severity_medium_keywords (lower (''Data Breach at bank'' @ '' '' @ [])) = [''breach'']" by code_simp
  have Ld: "matches severity_low_keywords (lower (''Data Breach at bank'' @ '' '' @ [])) = []" by code_simp
  have Pd: "source_in (Str ''Some Blog'') priority_sources = False" by code_simp
  have Qd: "source_in (Str ''Some Blog'') medium_priority_sources = False" by code_simp
  have rd: "is_critical_news (Str ''Data Breach at bank'') (Str []) (Str ''Some Blog'')
       = Inr (True, ''High and medium severity keywords: data breach, breach'')"
    using is_critical_news_precedence[of "''Data Breach at bank''" "[]" "Str ''Some Blog''", unfolded Let_def Hd Md Ld Pd Qd]
    by simp
  have He: "matches severity_high_keywords (lower (''Patch advisory alert'' @ '' '' @ [])) = []" by code_simp
  have Me: "matches severity_medium_keywords (lower (''Patch advisory alert'' @ '' '' @ [])) = []" by code_simp
  have Le: "matches severity_low_keywords (lower (''Patch advisory alert'' @ '' '' @ [])) = [''alert'', ''patch'', ''advisory'']" by code_simp
  have Pe: "source_in (Str ''Some Blog'') priority_sources = False" by code_simp
  have Qe: "source_in (Str ''Some Blog'') medium_priority_sources = False" by code_simp
  have re: "is_critical_news (Str ''Patch advisory alert'') (Str []) (Str ''Some Blog'')
       = Inr (True, ''Multiple security keywords: alert, patch, advisory'')"
    using is_critical_news_precedence[of "''Patch advisory alert''" "[]" "Str ''Some Blog''", unfolded Let_def He Me Le Pe Qe]
    by simp
  have Hf: "matches severity_high_keywords (lower (''Critical flaw'' @ '' '' @ [])) = [''critical'']" by code_simp
  have Mf: "matches severity_medium_keywords (lower (''Critical flaw'' @ '' '' @ [])) = []" by code_simp
  have Lf: "matches severity_low_keywords (lower (''Critical flaw'' @ '' '' @ [])) = []" by code_simp
  have Pf: "source_in (Str ''Some Blog'') priority_sources = False" by code_simp
  have Qf: "source_in (Str ''Some Blog'') medium_priority_sources = False" by code_simp
  have rf: "is_critical_news (Str ''Critical flaw'') (Str []) (Str ''Some Blog'')
       = Inr (False, [])"
    using is_critical_news_precedence[of "''Critical flaw''" "[]" "Str ''Some Blog''", unfolded Let_def Hf Mf Lf Pf Qf]
    by simp
  show ?thesis using ra rb rc rd re rf by simp
qed

section \<open>Properties of the history file\<close>

text \<open>
  C7. \<open>load_alert_history\<close> returns to its caller in every state of the file. When the
  file is absent, cannot be read, or holds text that is not JSON, the result is the fresh
  history with an empty \<open>alerts_sent\<close> list and \<open>last_check\<close> null. A file that holds a
  JSON document is returned as parsed, whatever its shape.
\<close>

theorem load_alert_history_total:
  "load_alert_history NoFile = JObj [(''alerts_sent'', JArr []), (''last_check'', JNull)]
   \<and> load_alert_history Unreadable = JObj [(''alerts_sent'', JArr []), (''last_check'', JNull)]
   \<and> load_alert_history BadJSON = JObj [(''alerts_sent'', JArr []), (''last_check'', JNull)]
   \<and> load_alert_history (Doc j) = j"
  by (simp add: empty_history_def)

text \<open>
  A history file holding the JSON document \<open>[]\<close> is loaded as that list, not as a fresh
  history, and \<open>check_for_alerts\<close> then raises \<open>AttributeError\<close> at \<open>history.get\<close>.
\<close>

theorem load_alert_history_counterexample:
  "load_alert_history (Doc (JArr [])) = JArr []
   \<and> load_alert_history (Doc (JArr []))
       \<noteq> JObj [(''alerts_sent'', JArr []), (''last_check'', JNull)]
   \<and> check_for_alerts demo_env (Doc (JArr [])) [] (Some ''+15550100'')
       = Inl (AttributeError, [])"
  by (simp add: check_for_alerts_def)

section \<open>Properties of the digest\<close>

lemma fold_score:
  "fold (\<lambda>(keyword, keyword_score) score.
           if P keyword then score + keyword_score else score) kws (acc::int)
   = acc + sum_list (map (\<lambda>(keyword, keyword_score). if P keyword then keyword_score else 0) kws)"
  by (induction kws arbitrary: acc) (auto simp: case_prod_beta)

lemma sorted_desc:
  "sorted_wrt (\<lambda>a b. snd a \<ge> snd b) (sort_key (\<lambda>(r, score). - score) (xs :: (row \<times> int) list))"
proof -
  have "sorted (map (\<lambda>(r, score). - score) (sort_key (\<lambda>(r, score). - score) xs))"
    by (rule sorted_sort_key)
  then show ?thesis
    by (simp add: sorted_map case_prod_beta)
qed

lemma stable_desc:
  "filter (\<lambda>x. snd x = k) (sort_key (\<lambda>(r, score). - score) (xs :: (row \<times> int) list))
   = filter (\<lambda>x. snd x = k) xs"
  using sort_key_stable[of "\<lambda>(r, score). - score" "- k" xs]
  by (simp add: case_prod_beta)

lemma scored_items_rows:
  "map fst (scored_items news_df) = filter (\<lambda>r. criticality_score r \<ge> 10) news_df"
  unfolding scored_items_def by (induction news_df) auto

lemma scored_items_scores:
  "x \<in> set (scored_items news_df) \<Longrightarrow> snd x = criticality_score (fst x)"
  unfolding scored_items_def by auto

lemma digest_three:
  assumes "criticality_score a = 15" "criticality_score b = 30" "criticality_score c = 15"
  shows "get_critical_news_digest [a, b, c] 2 = [(b, 30), (a, 15)]"
  using assms by (simp add: get_critical_news_digest_def scored_items_def slice_to_def)

text \<open>
  C5. For a non-negative \<open>max_items\<close>, the digest is the first \<open>max_items\<close> entries of the
  ranked list. The ranked list holds exactly the rows whose score is at least 10, each
  with its score; it is in descending order of score, and rows of equal score keep their
  input order. The score of a row is the points of its source plus the weight of every
  keyword of the severity table that occurs in the lowercased headline and content (a
  field that is no string counts as empty); each keyword is in the table once. For rows
  a, b, c of scores 15, 30, 15 in that order and \<open>max_items = 2\<close> the digest is b, a.
\<close>

theorem digest_postcondition:
  "(let ranked = sort_key (\<lambda>(r, score). - score) (scored_items news_df)
    in (0 \<le> max_items \<longrightarrow> get_critical_news_digest news_df max_items = take (nat max_items) ranked)
     \<and> mset ranked = mset (scored_items news_df)
     \<and> sorted_wrt (\<lambda>x y. snd x \<ge> snd y) ranked
     \<and> (\<forall>k. filter (\<lambda>x. snd x = k) ranked = filter (\<lambda>x. snd x = k) (scored_items news_df)))
   \<and> map fst (scored_items news_df) = filter (\<lambda>r. criticality_score r \<ge> 10) news_df
   \<and> (\<forall>x \<in> set (scored_items news_df). snd x = criticality_score (fst x))
   \<and> criticality_score r
       = source_score (source r)
         + (\<Sum>(keyword, weight) \<leftarrow> severity_scores.
              if contains keyword (lower_or_empty (headline r) @ '' '' @ lower_or_empty (content r))
              then weight else 0)
   \<and> distinct (map fst severity_scores)
   \<and> (criticality_score a = 15 \<and> criticality_score b = 30 \<and> criticality_score c = 15 \<longrightarrow>
        get_critical_news_digest [a, b, c] 2 = [(b, 30), (a, 15)])"
proof -
  have lk: "\<forall>(keyword, weight) \<in> set severity_scores. lower keyword = keyword"
    by (simp add: severity_scores_def lower_def lower_char_def)
  have eq: "map (\<lambda>(keyword, keyword_score).
                 if contains (lower keyword) t then keyword_score else 0) severity_scores
        = map (\<lambda>(keyword, weight). if contains keyword t then weight else 0) severity_scores" for t
    using lk by (intro map_cong) auto
  have sc: "criticality_score r
       = source_score (source r)
         + (\<Sum>(keyword, weight) \<leftarrow> severity_scores.
              if contains keyword (lower_or_empty (headline r) @ '' '' @ lower_or_empty (content r))
              then weight else 0)"
  proof -
    let ?t = "lower_or_empty (headline r) @ '' '' @ lower_or_empty (content r)"
    have "criticality_score r
        = source_score (source r)
          + sum_list (map (\<lambda>(keyword, keyword_score).
                 if contains (lower keyword) ?t then keyword_score else 0) severity_scores)"
      unfolding criticality_score_def Let_def
      using fold_score[of "\<lambda>k. contains (lower k) ?t" severity_scores
                          "0 + source_score (source r)"]
      by simp
    then show ?thesis
      by (simp only: eq[of ?t])
  qed
  have di: "distinct (map fst severity_scores)"
    by (simp add: severity_scores_def)
  show ?thesis
    unfolding Let_def
    using sc di sorted_desc stable_desc scored_items_rows scored_items_scores digest_three
    by (simp add: get_critical_news_digest_def slice_to_def)
qed

theorem digest_postcondition_witness:
  "get_critical_news_digest [digest_a, digest_b, digest_c] 2 = [(digest_b, 30), (digest_a, 15)]
   \<and> map fst (get_critical_news_digest [digest_a, digest_b, digest_c, row_weather] 5)
       = [digest_b, digest_a, digest_c]"
proof -
  have a: "criticality_score digest_a = 15" by code_simp
  have b: "criticality_score digest_b = 30" by code_simp
  have c: "criticality_score digest_c = 15" by code_simp
  have w: "criticality_score row_weather = 5" by code_simp
  have "(0::int) \<le> 2" by simp
  show ?thesis
    using digest_postcondition[where max_items=5
            and news_df="[digest_a, digest_b, digest_c, row_weather]"
            and a=digest_a and b=digest_b and c=digest_c] a b c w
    by (simp add: Let_def scored_items_def)
qed

section \<open>Properties of the dispatcher loop\<close>

lemma py_append_Inr: "py_append ids s = Inr ids' \<Longrightarrow> \<exists>xs. ids = JArr xs \<and> ids' = JArr (xs @ [JStr s])"
  by (cases ids) auto

lemma alerted_append: "alerted k (JArr (xs @ [JStr s])) = (alerted k (JArr xs) \<or> k = s)"
  by (auto simp: alerted_def)

lemma alert_row_cases:
  assumes "alert_row e p st r = Inr st'"
  shows "(st' = st \<and> (alerted (news_id r) (already_alerted_ids st) \<or> \<not> critical r))
       \<or> (\<not> alerted (news_id r) (already_alerted_ids st) \<and> critical r \<and> p = []
           \<and> st' = st\<lparr>critical_items := critical_items st @ [r]\<rparr>)
       \<or> (\<not> alerted (news_id r) (already_alerted_ids st) \<and> critical r \<and> p \<noteq> []
           \<and> st' = st\<lparr>critical_items := critical_items st @ [r],
                       sms_log := sms_log st @ [(r, False)]\<rparr>)
       \<or> (\<not> alerted (news_id r) (already_alerted_ids st) \<and> critical r \<and> p \<noteq> []
           \<and> (\<exists>xs. already_alerted_ids st = JArr xs
                \<and> st' = st\<lparr>critical_items := critical_items st @ [r],
                            sms_log := sms_log st @ [(r, True)],
                            alerts_sent := alerts_sent st + 1,
                            already_alerted_ids := JArr (xs @ [JStr (news_id r)])\<rparr>))"
  using assms unfolding alert_row_def alerted_def critical_def Let_def
  by (auto split: sum.splits bool.splits prod.splits if_splits dest!: py_append_Inr)

lemma alert_row_prefix:
  "alert_row e p st r = Inr st' \<Longrightarrow> prefix (sms_log st) (sms_log st')"
  by (drule alert_row_cases) auto

lemma alert_row_mono:
  "alert_row e p st r = Inr st' \<Longrightarrow> alerted k (already_alerted_ids st)
     \<Longrightarrow> alerted k (already_alerted_ids st')"
  by (drule alert_row_cases) (auto simp: alerted_append)

lemma scan_rows_prefix:
  "scan_rows e p st rs = Inr st' \<Longrightarrow> prefix (sms_log st) (sms_log st')"
proof (induction rs arbitrary: st)
  case Nil then show ?case by simp
next
  case (Cons r rs)
  then obtain st1 where a: "alert_row e p st r = Inr st1" and b: "scan_rows e p st1 rs = Inr st'"
    by (auto split: sum.splits)
  from alert_row_prefix[OF a] Cons.IH[OF b] show ?case by (rule prefix_order.trans)
qed


lemma scan_rows_alerted:
  "scan_rows e p st rs = Inr st' \<Longrightarrow>
     alerted k (already_alerted_ids st')
       = (alerted k (already_alerted_ids st)
          \<or> (\<exists>r. (r, True) \<in> set (drop (length (sms_log st)) (sms_log st')) \<and> news_id r = k))"
proof (induction rs arbitrary: st)
  case Nil then show ?case by simp
next
  case (Cons r rs)
  then obtain st1 where a: "alert_row e p st r = Inr st1" and b: "scan_rows e p st1 rs = Inr st'"
    by (auto split: sum.splits)
  from scan_rows_prefix[OF b] obtain new where n: "sms_log st' = sms_log st1 @ new"
    by (auto simp: prefix_def)
  from alert_row_cases[OF a] Cons.IH[OF b] n show ?case
    by (elim disjE conjE exE) (auto simp: alerted_append)
qed

lemma scan_rows_call:
  "scan_rows e p st rs = Inr st' \<Longrightarrow>
     (r, ok) \<in> set (drop (length (sms_log st)) (sms_log st')) \<Longrightarrow>
     r \<in> set rs \<and> \<not> alerted (news_id r) (already_alerted_ids st) \<and> critical r \<and> p \<noteq> []"
proof (induction rs arbitrary: st)
  case Nil then show ?case by simp
next
  case (Cons x rs)
  then obtain st1 where a: "alert_row e p st x = Inr st1" and b: "scan_rows e p st1 rs = Inr st'"
    by (auto split: sum.splits)
  from scan_rows_prefix[OF b] obtain new where n: "sms_log st' = sms_log st1 @ new"
    by (auto simp: prefix_def)
  have mono: "alerted (news_id r) (already_alerted_ids st) \<Longrightarrow> alerted (news_id r) (already_alerted_ids st1)"
    using alert_row_mono[OF a] .
  from alert_row_cases[OF a] Cons.IH[OF b] n Cons.prems(2) mono show ?case
    by (elim disjE conjE exE) auto
qed


lemma alert_row_items_prefix:
  "alert_row e p st r = Inr st' \<Longrightarrow> prefix (critical_items st) (critical_items st')"
  by (drule alert_row_cases) auto

lemma scan_rows_items_prefix:
  "scan_rows e p st rs = Inr st' \<Longrightarrow> prefix (critical_items st) (critical_items st')"
proof (induction rs arbitrary: st)
  case Nil then show ?case by simp
next
  case (Cons r rs)
  then obtain st1 where a: "alert_row e p st r = Inr st1" and b: "scan_rows e p st1 rs = Inr st'"
    by (auto split: sum.splits)
  from alert_row_items_prefix[OF a] Cons.IH[OF b] show ?case by (rule prefix_order.trans)
qed

lemma scan_rows_item:
  "scan_rows e p st rs = Inr st' \<Longrightarrow>
     r \<in> set (drop (length (critical_items st)) (critical_items st')) \<Longrightarrow>
     r \<in> set rs \<and> \<not> alerted (news_id r) (already_alerted_ids st) \<and> critical r"
proof (induction rs arbitrary: st)
  case Nil then show ?case by simp
next
  case (Cons x rs)
  then obtain st1 where a: "alert_row e p st x = Inr st1" and b: "scan_rows e p st1 rs = Inr st'"
    by (auto split: sum.splits)
  from scan_rows_items_prefix[OF b] obtain new where n: "critical_items st' = critical_items st1 @ new"
    by (auto simp: prefix_def)
  have mono: "alerted (news_id r) (already_alerted_ids st) \<Longrightarrow> alerted (news_id r) (already_alerted_ids st1)"
    using alert_row_mono[OF a] .
  from alert_row_cases[OF a] Cons.IH[OF b] n Cons.prems(2) mono show ?case
    by (elim disjE conjE exE) auto
qed


lemma scan_rows_count:
  "scan_rows e p st rs = Inr st' \<Longrightarrow>
     alerts_sent st' = alerts_sent st + length (filter snd (drop (length (sms_log st)) (sms_log st')))"
proof (induction rs arbitrary: st)
  case Nil then show ?case by simp
next
  case (Cons x rs)
  then obtain st1 where a: "alert_row e p st x = Inr st1" and b: "scan_rows e p st1 rs = Inr st'"
    by (auto split: sum.splits)
  from scan_rows_prefix[OF b] obtain new where n: "sms_log st' = sms_log st1 @ new"
    by (auto simp: prefix_def)
  from alert_row_cases[OF a] Cons.IH[OF b] n show ?case
    by (elim disjE conjE exE) auto
qed

lemma map_of_setitem: "map_of (setitem kvs k v) k' = (if k' = k then Some v else map_of kvs k')"
  by (induction kvs) auto

lemma loaded_ids_saved:
  "loaded_ids (save_alert_history Written file (JObj (setitem h ''alerts_sent'' ids))) = Some ids"
  by (simp add: loaded_ids_def map_of_setitem)

lemma check_for_alerts_Some:
  assumes "load_alert_history file = JObj history"
  shows "check_for_alerts e file rs (Some p)
    = (case scan_rows e p \<lparr>critical_items = [], alerts_sent = 0,
                            already_alerted_ids = the (loaded_ids file), sms_log = []\<rparr> rs of
         Inl err \<Rightarrow> Inl err
       | Inr st \<Rightarrow>
           Inr \<lparr>items = critical_items st, any_sent = (0 < alerts_sent st),
                file_after = save_alert_history (write_result e) file
                  (JObj (setitem (setitem history ''last_check'' (JStr (isoformat e (now e))))
                           ''alerts_sent'' (already_alerted_ids st))),
                calls = sms_log st\<rparr>)"
  using assms by (simp add: check_for_alerts_def loaded_ids_def Let_def split: sum.splits)

lemma check_for_alerts_not_object:
  assumes "loaded_ids file = None"
  shows "check_for_alerts e file rs (Some p) = Inl (AttributeError, [])"
  using assms by (auto simp: check_for_alerts_def loaded_ids_def split: json.splits)

lemma loaded_ids_Some:
  "loaded_ids file = Some ids \<Longrightarrow> \<exists>history. load_alert_history file = JObj history"
  by (auto simp: loaded_ids_def split: json.splits)

lemma loaded_ids_None:
  "loaded_ids file = None \<or> (\<exists>history. load_alert_history file = JObj history)"
  by (auto simp: loaded_ids_def split: json.splits)

lemma alert_row_err:
  assumes "alert_row e p st r = Inl (err, log)"
  shows "log = sms_log st
       \<or> (log = sms_log st @ [(r, True)] \<and> \<not> alerted (news_id r) (already_alerted_ids st))"
  using assms unfolding alert_row_def alerted_def Let_def
  by (auto split: sum.splits bool.splits prod.splits if_splits)

lemma scan_rows_err:
  "scan_rows e p st rs = Inl (err, log) \<Longrightarrow>
     prefix (sms_log st) log
     \<and> (\<forall>r ok. (r, ok) \<in> set (drop (length (sms_log st)) log)
           \<longrightarrow> \<not> alerted (news_id r) (already_alerted_ids st))"
proof (induction rs arbitrary: st)
  case Nil then show ?case by simp
next
  case (Cons x rs)
  show ?case
  proof (cases "alert_row e p st x")
    case (Inl a)
    with Cons.prems have "alert_row e p st x = Inl (err, log)" by simp
    from alert_row_err[OF this] show ?thesis by auto
  next
    case (Inr st1)
    with Cons.prems have b: "scan_rows e p st1 rs = Inl (err, log)" by simp
    from Cons.IH[OF b] obtain new where n: "log = sms_log st1 @ new"
      and f: "\<forall>r ok. (r, ok) \<in> set new \<longrightarrow> \<not> alerted (news_id r) (already_alerted_ids st1)"
      by (auto simp: prefix_def)
    have mono: "\<And>k. alerted k (already_alerted_ids st) \<Longrightarrow> alerted k (already_alerted_ids st1)"
      using alert_row_mono[OF Inr] .
    from alert_row_cases[OF Inr] n f mono show ?thesis
      by (elim disjE conjE exE) auto
  qed
qed

lemma scan_rows_no_phone:
  "scan_rows e [] st rs = Inr st' \<Longrightarrow>
     sms_log st' = sms_log st \<and> already_alerted_ids st' = already_alerted_ids st
     \<and> alerts_sent st' = alerts_sent st"
proof (induction rs arbitrary: st)
  case Nil then show ?case by simp
next
  case (Cons x rs)
  then obtain st1 where a: "alert_row e [] st x = Inr st1" and b: "scan_rows e [] st1 rs = Inr st'"
    by (auto split: sum.splits)
  from alert_row_cases[OF a] Cons.IH[OF b] show ?case
    by (elim disjE conjE exE) auto
qed

lemma scan_rows_no_phone_err:
  "scan_rows e [] st rs = Inl (err, log) \<Longrightarrow> log = sms_log st"
proof (induction rs arbitrary: st)
  case Nil then show ?case by simp
next
  case (Cons x rs)
  show ?case
  proof (cases "alert_row e [] st x")
    case (Inl a)
    with Cons.prems have "alert_row e [] st x = Inl (err, log)" by simp
    then show ?thesis unfolding alert_row_def Let_def
      by (auto split: sum.splits bool.splits prod.splits if_splits)
  next
    case (Inr st1)
    with Cons.prems have b: "scan_rows e [] st1 rs = Inl (err, log)" by simp
    from alert_row_cases[OF Inr] Cons.IH[OF b] show ?thesis
      by (elim disjE conjE exE) auto
  qed
qed

lemma run_flaw: "check_for_alerts demo_env NoFile [row_flaw] (Some ''+15550100'')
   = Inr \<lparr>items = [row_flaw], any_sent = True,
          file_after = Doc (JObj [(''alerts_sent'', JArr [JStr ''CERT-In:Critical flaw'']),
                                  (''last_check'', JStr ''2023-11-14T22:13:20'')]),
          calls = [(row_flaw, True)]\<rparr>"
  by code_simp

lemma loaded_ids_load:
  "load_alert_history file = JObj history \<Longrightarrow>
     loaded_ids file = Some (case map_of history ''alerts_sent'' of Some v \<Rightarrow> v | None \<Rightarrow> JArr [])"
  by (simp add: loaded_ids_def)

lemma loaded_ids_Doc_saved:
  "loaded_ids (Doc (JObj (setitem h ''alerts_sent'' ids))) = Some ids"
  by (simp add: loaded_ids_def map_of_setitem)


lemma alert_row_total:
  assumes "already_alerted_ids st = JArr xs"
      and "\<not> isl (is_critical_news (headline r) (content r) (source r))"
  shows "\<exists>st' ys. alert_row e p st r = Inr st' \<and> already_alerted_ids st' = JArr ys"
proof -
  from assms(2) obtain v where v: "is_critical_news (headline r) (content r) (source r) = Inr v"
    by (cases "is_critical_news (headline r) (content r) (source r)") auto
  obtain b reason where br: "v = (b, reason)" by (cases v)
  show ?thesis
    using assms(1) v br unfolding alert_row_def Let_def
    by (auto split: sum.splits bool.splits prod.splits if_splits)
qed

lemma scan_rows_total:
  "already_alerted_ids st = JArr xs \<Longrightarrow>
   \<forall>r \<in> set rs. \<not> isl (is_critical_news (headline r) (content r) (source r)) \<Longrightarrow>
   \<exists>st' ys. scan_rows e p st rs = Inr st' \<and> already_alerted_ids st' = JArr ys"
proof (induction rs arbitrary: st xs)
  case Nil then show ?case by simp
next
  case (Cons r rs)
  from Cons.prems have c: "\<not> isl (is_critical_news (headline r) (content r) (source r))"
    by simp
  from alert_row_total[OF Cons.prems(1) c, of e p]
  obtain st1 ys where a: "alert_row e p st r = Inr st1" and i: "already_alerted_ids st1 = JArr ys"
    by blast
  from Cons.prems have r: "\<forall>r \<in> set rs. \<not> isl (is_critical_news (headline r) (content r) (source r))"
    by simp
  from Cons.IH[OF i r] a show ?case by simp
qed


lemma check_for_alerts_returns:
  assumes ids: "loaded_ids file = Some (JArr xs)"
      and cls: "\<forall>r \<in> set rs. \<not> isl (is_critical_news (headline r) (content r) (source r))"
  shows "\<exists>st history. load_alert_history file = JObj history
           \<and> scan_rows e p \<lparr>critical_items = [], alerts_sent = 0,
                             already_alerted_ids = JArr xs, sms_log = []\<rparr> rs = Inr st
           \<and> check_for_alerts e file rs (Some p)
               = Inr \<lparr>items = critical_items st, any_sent = (0 < alerts_sent st),
                      file_after = save_alert_history (write_result e) file
                        (JObj (setitem (setitem history ''last_check'' (JStr (isoformat e (now e))))
                                 ''alerts_sent'' (already_alerted_ids st))),
                      calls = sms_log st\<rparr>"
proof -
  from loaded_ids_Some[OF ids] obtain history where h: "load_alert_history file = JObj history"
    by blast
  let ?init = "\<lparr>critical_items = [], alerts_sent = 0,
                 already_alerted_ids = JArr xs, sms_log = []\<rparr>"
  have "already_alerted_ids ?init = JArr xs" by simp
  from scan_rows_total[OF this cls, of e p]
  obtain st where s: "scan_rows e p ?init rs = Inr st" by blast
  show ?thesis
    using h s unfolding check_for_alerts_Some[OF h] ids by simp
qed



lemma scan_rows_no_phone_items:
  "scan_rows e [] st rs = Inr st' \<Longrightarrow>
     critical_items st'
       = critical_items st
         @ filter (\<lambda>r. \<not> alerted (news_id r) (already_alerted_ids st) \<and> critical r) rs"
proof (induction rs arbitrary: st)
  case Nil then show ?case by simp
next
  case (Cons r rs)
  then obtain st1 where a: "alert_row e [] st r = Inr st1" and b: "scan_rows e [] st1 rs = Inr st'"
    by (auto split: sum.splits)
  from alert_row_cases[OF a]
  consider (skip) "st1 = st" "alerted (news_id r) (already_alerted_ids st) \<or> \<not> critical r"
    | (item) "\<not> alerted (news_id r) (already_alerted_ids st)" "critical r"
             "st1 = st\<lparr>critical_items := critical_items st @ [r]\<rparr>"
    by auto
  then show ?case
  proof cases
    case skip
    from Cons.IH[OF b] skip show ?thesis by auto
  next
    case item
    from Cons.IH[OF b] item show ?thesis by simp
  qed
qed

lemma flaw_critical: "critical row_flaw \<and> \<not> critical row_weather"
  by code_simp

section \<open>Properties of \<open>check_for_alerts\<close>\<close>

text \<open>
  C1. Let a first run return with a successful send for a row, and let its save of the
  history file succeed. Then a second run that starts from the file the first one left,
  on any input and with any sender, makes no call of \<open>send_sms_alert\<close> for a row with the
  same identity key (whether it returns or raises) and returns no such row among its
  critical items: the row is skipped before it is classified.
\<close>

theorem dedup_after_saved_send:
  assumes run1: "check_for_alerts e1 file rows1 (Some p1) = Inr out1"
      and sent: "(r, True) \<in> set (calls out1)"
      and saved: "write_result e1 = Written"
      and same: "news_id r2 = news_id r"
  shows "(\<forall>ok. (r2, ok) \<notin> set (calls_of (check_for_alerts e2 (file_after out1) rows2 p2)))
       \<and> (\<forall>out2. check_for_alerts e2 (file_after out1) rows2 p2 = Inr out2
             \<longrightarrow> r2 \<notin> set (items out2))"
proof -
  let ?init = "\<lambda>ids. \<lparr>critical_items = [], alerts_sent = 0, already_alerted_ids = ids,
                       sms_log = []\<rparr>"
  from run1 loaded_ids_None[of "file"] obtain history where
    h: "load_alert_history file = JObj history"
    by (auto simp: check_for_alerts_not_object)
  from run1 obtain st1 where
    s1: "scan_rows e1 p1 (?init (the (loaded_ids file))) rows1 = Inr st1"
    and c1: "calls out1 = sms_log st1"
    and f1: "file_after out1 = save_alert_history (write_result e1) file
               (JObj (setitem (setitem history ''last_check'' (JStr (isoformat e1 (now e1))))
                        ''alerts_sent'' (already_alerted_ids st1)))"
    unfolding check_for_alerts_Some[OF h] by (auto split: sum.splits)
  from scan_rows_alerted[OF s1, of "news_id r"] sent c1
  have al: "alerted (news_id r2) (already_alerted_ids st1)"
    using same by auto
  have l2: "loaded_ids (file_after out1) = Some (already_alerted_ids st1)"
    unfolding f1 saved by (rule loaded_ids_saved)
  then obtain h2 where h2: "load_alert_history (file_after out1) = JObj h2"
    using loaded_ids_Some by blast
  show ?thesis
  proof (cases p2)
    case None
    then show ?thesis by (simp add: check_for_alerts_def calls_of_def)
  next
    case (Some p)
    show ?thesis
    proof (cases "scan_rows e2 p (?init (already_alerted_ids st1)) rows2")
      case (Inl a)
      obtain err log where a: "a = (err, log)" by (cases a)
      from scan_rows_err[OF Inl[unfolded a]] al
      have "\<forall>ok. (r2, ok) \<notin> set log" by auto
      then show ?thesis
        unfolding Some check_for_alerts_Some[OF h2] l2 using Inl a
        by (simp add: calls_of_def)
    next
      case (Inr st2)
      from scan_rows_call[OF Inr] al have "\<forall>ok. (r2, ok) \<notin> set (sms_log st2)" by auto
      moreover from scan_rows_item[OF Inr, of r2] al have "r2 \<notin> set (critical_items st2)" by auto
      ultimately show ?thesis
        unfolding Some check_for_alerts_Some[OF h2] l2 using Inr
        by (simp add: calls_of_def)
    qed
  qed
qed

theorem dedup_after_saved_send_witness:
  "check_for_alerts demo_env NoFile [row_flaw] (Some ''+15550100'') = Inr out_flaw
   \<and> (row_flaw, True) \<in> set (calls out_flaw)
   \<and> write_result demo_env = Written
   \<and> (row_flaw, True) \<notin> set (calls_of (check_for_alerts demo_env (file_after out_flaw)
                                           [row_weather, row_flaw] (Some ''+15550100'')))
   \<and> (row_flaw, False) \<notin> set (calls_of (check_for_alerts demo_env (file_after out_flaw)
                                            [row_weather, row_flaw] (Some ''+15550100'')))"
proof -
  have r1: "check_for_alerts demo_env NoFile [row_flaw] (Some ''+15550100'') = Inr out_flaw"
    using run_flaw by (simp add: out_flaw_def)
  have s: "(row_flaw, True) \<in> set (calls out_flaw)" by (simp add: out_flaw_def)
  have w: "write_result demo_env = Written" by (simp add: demo_env_def)
  from dedup_after_saved_send[OF r1 s w refl, where ?e2.0 = demo_env
        and ?rows2.0 = "[row_weather, row_flaw]" and ?p2.0 = "Some ''+15550100''"] r1 s w
  show ?thesis by blast
qed

text \<open>
  Without the save the property fails: when \<open>open\<close> refuses the history file in the first
  run, the send succeeds, the file stays absent, and the second run sends again.
\<close>

theorem dedup_unsaved_counterexample:
  "check_for_alerts unsaved_env NoFile [row_flaw] (Some ''+15550100'')
     = Inr \<lparr>items = [row_flaw], any_sent = True, file_after = NoFile,
            calls = [(row_flaw, True)]\<rparr>
   \<and> calls_of (check_for_alerts demo_env NoFile [row_flaw] (Some ''+15550100''))
     = [(row_flaw, True)]"
  by code_simp

text \<open>
  C2. With no destination (\<open>None\<close>) the call returns the empty list and \<open>False\<close> at once,
  makes no call of the sender and leaves the history file as it is. The empty string is
  not short-circuited: the early return tests \<open>phone_number is None\<close> only. With the empty
  string the call makes no call of the sender, whether it returns or raises. When it
  returns, its flag is \<open>False\<close>; its items are exactly the rows of the input whose key is
  not in the loaded \<open>alerts_sent\<close> and which the classifier calls critical, in the order of
  the input; and the history handed to the save is the loaded one with \<open>last_check\<close> set
  to the current time and \<open>alerts_sent\<close> as loaded. So a refused \<open>open\<close> leaves the file as
  it was, a failed \<open>json.dump\<close> leaves an incomplete text, and a completed write leaves a
  document with the loaded \<open>alerts_sent\<close> and the new \<open>last_check\<close>. The call returns
  whenever the loaded \<open>alerts_sent\<close> is a list and the classifier raises on no row.
\<close>

theorem no_destination:
  "check_for_alerts e file news_df None
     = Inr \<lparr>items = [], any_sent = False, file_after = file, calls = []\<rparr>
   \<and> calls_of (check_for_alerts e file news_df (Some [])) = []
   \<and> (\<forall>out. check_for_alerts e file news_df (Some []) = Inr out \<longrightarrow>
         (\<exists>history ids. load_alert_history file = JObj history \<and> loaded_ids file = Some ids
            \<and> out = \<lparr>items = filter (\<lambda>r. \<not> alerted (news_id r) ids \<and> critical r) news_df,
                       any_sent = False,
                       file_after = save_alert_history (write_result e) file
                         (JObj (setitem (setitem history ''last_check''
                                           (JStr (isoformat e (now e))))
                                  ''alerts_sent'' ids)),
                       calls = []\<rparr>)
         \<and> (write_result e = OpenFailed \<longrightarrow> file_after out = file)
         \<and> (write_result e = DumpFailed \<longrightarrow> file_after out = BadJSON)
         \<and> (write_result e = Written \<longrightarrow>
              loaded_ids (file_after out) = loaded_ids file
              \<and> (\<exists>history. file_after out = Doc (JObj history)
                    \<and> map_of history ''last_check'' = Some (JStr (isoformat e (now e))))))
   \<and> (\<forall>xs. loaded_ids file = Some (JArr xs)
          \<and> (\<forall>r \<in> set news_df. \<not> isl (is_critical_news (headline r) (content r) (source r)))
        \<longrightarrow> (\<exists>out. check_for_alerts e file news_df (Some []) = Inr out))"
proof -
  let ?init = "\<lparr>critical_items = [], alerts_sent = 0,
                 already_alerted_ids = the (loaded_ids file), sms_log = []\<rparr>"
  have a: "check_for_alerts e file news_df None
     = Inr \<lparr>items = [], any_sent = False, file_after = file, calls = []\<rparr>"
    by (simp add: check_for_alerts_def)
  have t: "\<forall>xs. loaded_ids file = Some (JArr xs)
          \<and> (\<forall>r \<in> set news_df. \<not> isl (is_critical_news (headline r) (content r) (source r)))
        \<longrightarrow> (\<exists>out. check_for_alerts e file news_df (Some []) = Inr out)"
  proof (intro allI impI)
    fix xs
    assume h: "loaded_ids file = Some (JArr xs)
          \<and> (\<forall>r \<in> set news_df. \<not> isl (is_critical_news (headline r) (content r) (source r)))"
    then have i: "loaded_ids file = Some (JArr xs)"
      and c: "\<forall>r \<in> set news_df. \<not> isl (is_critical_news (headline r) (content r) (source r))"
      by simp_all
    from check_for_alerts_returns[OF i c, of e "[]"]
    show "\<exists>out. check_for_alerts e file news_df (Some []) = Inr out" by blast
  qed
  have b: "calls_of (check_for_alerts e file news_df (Some [])) = []
   \<and> (\<forall>out. check_for_alerts e file news_df (Some []) = Inr out \<longrightarrow>
         (\<exists>history ids. load_alert_history file = JObj history \<and> loaded_ids file = Some ids
            \<and> out = \<lparr>items = filter (\<lambda>r. \<not> alerted (news_id r) ids \<and> critical r) news_df,
                       any_sent = False,
                       file_after = save_alert_history (write_result e) file
                         (JObj (setitem (setitem history ''last_check''
                                           (JStr (isoformat e (now e))))
                                  ''alerts_sent'' ids)),
                       calls = []\<rparr>)
         \<and> (write_result e = OpenFailed \<longrightarrow> file_after out = file)
         \<and> (write_result e = DumpFailed \<longrightarrow> file_after out = BadJSON)
         \<and> (write_result e = Written \<longrightarrow>
              loaded_ids (file_after out) = loaded_ids file
              \<and> (\<exists>history. file_after out = Doc (JObj history)
                    \<and> map_of history ''last_check'' = Some (JStr (isoformat e (now e))))))"
  proof (cases "loaded_ids file")
    case None
    from check_for_alerts_not_object[OF None] show ?thesis
      by (simp add: calls_of_def)
  next
    case (Some ids)
    then obtain history where h: "load_alert_history file = JObj history"
      using loaded_ids_Some by blast
    show ?thesis
    proof (cases "scan_rows e [] ?init news_df")
      case (Inl x)
      obtain err log where x: "x = (err, log)" by (cases x)
      from scan_rows_no_phone_err[OF Inl[unfolded x]] have "log = []" by simp
      with Inl x show ?thesis
        unfolding check_for_alerts_Some[OF h] by (simp add: calls_of_def)
    next
      case (Inr st)
      from scan_rows_no_phone[OF Inr]
      have n: "sms_log st = []" "already_alerted_ids st = ids" "alerts_sent st = 0"
        using Some by simp_all
      from scan_rows_no_phone_items[OF Inr]
      have i: "critical_items st
                 = filter (\<lambda>r. \<not> alerted (news_id r) ids \<and> critical r) news_df"
        using Some by simp
      have c: "check_for_alerts e file news_df (Some [])
         = Inr \<lparr>items = filter (\<lambda>r. \<not> alerted (news_id r) ids \<and> critical r) news_df,
                any_sent = False,
                file_after = save_alert_history (write_result e) file
                  (JObj (setitem (setitem history ''last_check''
                                    (JStr (isoformat e (now e))))
                           ''alerts_sent'' ids)),
                calls = []\<rparr>"
        unfolding check_for_alerts_Some[OF h] Inr using n i by simp
      have w: "write_result e = Written \<longrightarrow>
           loaded_ids (save_alert_history (write_result e) file
             (JObj (setitem (setitem history ''last_check'' (JStr (isoformat e (now e))))
                      ''alerts_sent'' ids))) = loaded_ids file"
        using Some by (simp add: loaded_ids_Doc_saved)
      have l: "write_result e = Written \<longrightarrow>
           (\<exists>hist. save_alert_history (write_result e) file
             (JObj (setitem (setitem history ''last_check'' (JStr (isoformat e (now e))))
                      ''alerts_sent'' ids)) = Doc (JObj hist)
              \<and> map_of hist ''last_check'' = Some (JStr (isoformat e (now e))))"
        by (simp add: map_of_setitem)
      from h Some w l show ?thesis
        unfolding c by (simp add: calls_of_def)
    qed
  qed
  from a b t show ?thesis by blast
qed

theorem no_destination_witness:
  "loaded_ids NoFile = Some (JArr [])
   \<and> \<not> isl (is_critical_news (headline row_weather) (content row_weather) (source row_weather))
   \<and> \<not> isl (is_critical_news (headline row_flaw) (content row_flaw) (source row_flaw))
   \<and> write_result demo_env = Written
   \<and> check_for_alerts demo_env NoFile [row_weather, row_flaw] (Some [])
     = Inr \<lparr>items = [row_flaw], any_sent = False,
            file_after = Doc (JObj [(''alerts_sent'', JArr []),
                                    (''last_check'', JStr ''2023-11-14T22:13:20'')]),
            calls = []\<rparr>"
proof -
  have ids: "loaded_ids NoFile = Some (JArr [])"
    by (simp add: loaded_ids_def empty_history_def)
  have ld: "load_alert_history NoFile
              = JObj [(''alerts_sent'', JArr []), (''last_check'', JNull)]"
    by (simp add: empty_history_def)
  have c1: "\<not> isl (is_critical_news (headline row_weather) (content row_weather)
                     (source row_weather))"
    by (simp add: row_weather_def is_critical_news_def combined_text_def)
  have c2: "\<not> isl (is_critical_news (headline row_flaw) (content row_flaw) (source row_flaw))"
    by (simp add: row_flaw_def is_critical_news_def combined_text_def)
  have w: "write_result demo_env = Written" by (simp add: demo_env_def)
  have iso: "isoformat demo_env (now demo_env) = ''2023-11-14T22:13:20''"
    by (simp add: demo_env_def)
  note nd = no_destination[of demo_env NoFile "[row_weather, row_flaw]"]
  from nd ids c1 c2
  obtain out where run: "check_for_alerts demo_env NoFile [row_weather, row_flaw] (Some []) = Inr out"
    by auto
  from nd run
  obtain history idl where lh: "load_alert_history NoFile = JObj history"
    and li: "loaded_ids NoFile = Some idl"
    and o: "out = \<lparr>items = filter (\<lambda>r. \<not> alerted (news_id r) idl \<and> critical r)
                                [row_weather, row_flaw],
                   any_sent = False,
                   file_after = save_alert_history (write_result demo_env) NoFile
                     (JObj (setitem (setitem history ''last_check''
                                       (JStr (isoformat demo_env (now demo_env))))
                              ''alerts_sent'' idl)),
                   calls = []\<rparr>"
    by blast
  from lh[unfolded ld] have hi: "history = [(''alerts_sent'', JArr []), (''last_check'', JNull)]"
    by simp
  from li[unfolded ids] have il: "idl = JArr []"
    by simp
  have "out = \<lparr>items = [row_flaw], any_sent = False,
            file_after = Doc (JObj [(''alerts_sent'', JArr []),
                                    (''last_check'', JStr ''2023-11-14T22:13:20'')]),
            calls = []\<rparr>"
    unfolding o hi il w iso using flaw_critical by (simp add: alerted_def)
  with run ids c1 c2 w show ?thesis by simp
qed

text \<open>
  With the empty string as destination and no history file, a critical row is returned
  and the history file is created with \<open>last_check\<close> set, where the short circuit returns
  the empty list and leaves the file absent.
\<close>

theorem no_destination_counterexample:
  "check_for_alerts demo_env NoFile [row_flaw] (Some [])
     = Inr \<lparr>items = [row_flaw], any_sent = False,
            file_after = Doc (JObj [(''alerts_sent'', JArr []),
                                    (''last_check'', JStr ''2023-11-14T22:13:20'')]),
            calls = []\<rparr>"
  by code_simp

text \<open>
  C9. Two history documents that agree on every key but \<open>last_check\<close> (which may be
  absent, or hold any value) give the same run: the same exception or the same critical
  items, flag and calls of the sender, and the same \<open>alerts_sent\<close> for the next run. When
  the run returns and the file is written, \<open>last_check\<close> holds the current time.
\<close>

theorem last_check_noninterference:
  assumes "\<forall>k. k \<noteq> ''last_check'' \<longrightarrow> map_of h1 k = map_of h2 k"
  shows "observed (check_for_alerts e (Doc (JObj h1)) news_df phone)
         = observed (check_for_alerts e (Doc (JObj h2)) news_df phone)
       \<and> (\<forall>p out. phone = Some p \<and> write_result e = Written
             \<and> check_for_alerts e (Doc (JObj h1)) news_df phone = Inr out \<longrightarrow>
             (\<exists>h. file_after out = Doc (JObj h)
                \<and> map_of h ''last_check'' = Some (JStr (isoformat e (now e)))))"
proof -
  have s: "map_of h1 ''alerts_sent'' = map_of h2 ''alerts_sent''"
    using assms by simp
  have l: "loaded_ids (Doc (JObj h1)) = loaded_ids (Doc (JObj h2))"
    by (simp add: loaded_ids_def s)
  show ?thesis
  proof (cases phone)
    case None
    then show ?thesis by (simp add: check_for_alerts_def observed_def l)
  next
    case (Some p)
    have c1: "load_alert_history (Doc (JObj h1)) = JObj h1" by simp
    have c2: "load_alert_history (Doc (JObj h2)) = JObj h2" by simp
    show ?thesis
      unfolding Some check_for_alerts_Some[OF c1] check_for_alerts_Some[OF c2] l
      by (cases "write_result e")
         (auto simp: observed_def loaded_ids_Doc_saved l map_of_setitem split: sum.splits)
  qed
qed

theorem last_check_noninterference_witness:
  "observed (check_for_alerts demo_env
        (Doc (JObj [(''alerts_sent'', JArr []), (''last_check'', JStr ''not a date'')]))
        [row_flaw, row_weather] (Some ''+15550100''))
     = observed (check_for_alerts demo_env (Doc (JObj [(''alerts_sent'', JArr [])]))
        [row_flaw, row_weather] (Some ''+15550100''))"
proof -
  have h: "\<forall>k. k \<noteq> ''last_check'' \<longrightarrow>
        map_of [(''alerts_sent'', JArr []), (''last_check'', JStr ''not a date'')] k
        = map_of [(''alerts_sent'', JArr [])] k"
    by simp
  from last_check_noninterference[OF h, of demo_env "[row_flaw, row_weather]" "Some ''+15550100''"]
  show ?thesis by blast
qed



section \<open>Properties of the identity key\<close>

text \<open>
  C8. The identity key is not injective on (source, headline) pairs: the pairs
  ("A:B", "C") and ("A", "B:C") are different, and rows with these sources and headlines
  both have the key "A:B:C".
\<close>

theorem news_id_collision:
  "(Str ''A:B'', Str ''C'') \<noteq> (Str ''A'', Str ''B:C'')
   \<and> news_id (r\<lparr>source := Str ''A:B'', headline := Str ''C''\<rparr>) = ''A:B:C''
   \<and> news_id (r'\<lparr>source := Str ''A'', headline := Str ''B:C''\<rparr>) = ''A:B:C''"
  by (simp add: news_id_def)

end
